theory Spec2Isabelle
  imports Main
begin

section \<open>Text\<close>

text \<open>
  A string is a Python 3 \<open>str\<close>, modelled as a list of characters; one \<^typ>\<open>char\<close> stands
  for one character of the source string. The alphabet is that of \<^typ>\<open>char\<close>: the code
  points below 256. On it, \<open>str.isdigit\<close> holds of the ten decimal digits and of the
  superscripts two, three and one (0xB2, 0xB3, 0xB9), while the regex class \<open>\d\<close> is the
  ten decimal digits only; the whitespace of \<open>str.split()\<close> is 0x09..0x0D, 0x1C..0x1F, the
  space, 0x85 and 0xA0; and \<open>str.lower\<close> maps \<open>A\<close>..\<open>Z\<close>, 0xC0..0xD6 and 0xD8..0xDE to
  the character 32 places further.
\<close>

definition isdigit_char :: "char \<Rightarrow> bool" where
  \<comment> \<open>\<open>c.isdigit()\<close>\<close>
  "isdigit_char c = (c \<in> set (''0123456789'' @ [CHR 0xB2, CHR 0xB3, CHR 0xB9]))"

definition re_digit_char :: "char \<Rightarrow> bool" where
  \<comment> \<open>the regex class \<open>\d\<close>\<close>
  "re_digit_char c = (c \<in> set ''0123456789'')"

definition isspace_char :: "char \<Rightarrow> bool" where
  \<comment> \<open>the whitespace at which \<open>str.split()\<close> splits\<close>
  "isspace_char c =
     (c \<in> set [CHR 0x09, CHR 0x0A, CHR 0x0B, CHR 0x0C, CHR 0x0D, CHR 0x1C, CHR 0x1D, CHR 0x1E,
               CHR 0x1F, CHR '' '', CHR 0x85, CHR 0xA0])"

definition uppercase :: string where
  "uppercase =
     ''ABCDEFGHIJKLMNOPQRSTUVWXYZ''
     @ [CHR 0xC0, CHR 0xC1, CHR 0xC2, CHR 0xC3, CHR 0xC4, CHR 0xC5, CHR 0xC6, CHR 0xC7,
        CHR 0xC8, CHR 0xC9, CHR 0xCA, CHR 0xCB, CHR 0xCC, CHR 0xCD, CHR 0xCE, CHR 0xCF,
        CHR 0xD0, CHR 0xD1, CHR 0xD2, CHR 0xD3, CHR 0xD4, CHR 0xD5, CHR 0xD6,
        CHR 0xD8, CHR 0xD9, CHR 0xDA, CHR 0xDB, CHR 0xDC, CHR 0xDD, CHR 0xDE]"

definition lowercase :: string where
  \<comment> \<open>the lowercase forms, in the order of \<open>uppercase\<close>\<close>
  "lowercase =
     ''abcdefghijklmnopqrstuvwxyz''
     @ [CHR 0xE0, CHR 0xE1, CHR 0xE2, CHR 0xE3, CHR 0xE4, CHR 0xE5, CHR 0xE6, CHR 0xE7,
        CHR 0xE8, CHR 0xE9, CHR 0xEA, CHR 0xEB, CHR 0xEC, CHR 0xED, CHR 0xEE, CHR 0xEF,
        CHR 0xF0, CHR 0xF1, CHR 0xF2, CHR 0xF3, CHR 0xF4, CHR 0xF5, CHR 0xF6,
        CHR 0xF8, CHR 0xF9, CHR 0xFA, CHR 0xFB, CHR 0xFC, CHR 0xFD, CHR 0xFE]"

definition lower_char :: "char \<Rightarrow> char" where
  "lower_char c = (case map_of (zip uppercase lowercase) c of None \<Rightarrow> c | Some l \<Rightarrow> l)"

definition lower :: "string \<Rightarrow> string" where
  \<comment> \<open>\<open>str.lower()\<close>\<close>
  "lower s = map lower_char s"

definition isdigit :: "string \<Rightarrow> bool" where
  \<comment> \<open>\<open>str.isdigit()\<close>: false on the empty string\<close>
  "isdigit s = (s \<noteq> [] \<and> list_all isdigit_char s)"

definition strip :: "string \<Rightarrow> string \<Rightarrow> string" where
  \<comment> \<open>\<open>s.strip(chars)\<close>\<close>
  "strip chars s =
     rev (dropWhile (\<lambda>c. c \<in> set chars) (rev (dropWhile (\<lambda>c. c \<in> set chars) s)))"

lemma length_dropWhile_after:
  assumes "dropWhile P s \<noteq> []" and "Q (hd (dropWhile P s))"
  shows "length (dropWhile Q (dropWhile P s)) < length s"
proof -
  obtain x xs where split: "dropWhile P s = x # xs"
    using assms(1) by (cases "dropWhile P s") auto
  with assms(2) have "dropWhile Q (dropWhile P s) = dropWhile Q xs"
    by simp
  moreover have "length (dropWhile Q xs) \<le> length xs"
    by (rule length_dropWhile_le)
  moreover have "length (x # xs) \<le> length s"
    using length_dropWhile_le [of P s] split by simp
  ultimately show ?thesis by simp
qed

function py_split :: "string \<Rightarrow> string list" where
  \<comment> \<open>\<open>s.split()\<close>: the maximal runs of non-whitespace characters\<close>
  "py_split s =
     (if dropWhile isspace_char s = [] then []
      else takeWhile (\<lambda>c. \<not> isspace_char c) (dropWhile isspace_char s)
           # py_split (dropWhile (\<lambda>c. \<not> isspace_char c) (dropWhile isspace_char s)))"
  by pat_completeness auto
termination
proof (relation "measure length")
  fix s :: string
  assume "dropWhile isspace_char s \<noteq> []"
  then show "(dropWhile (\<lambda>c. \<not> isspace_char c) (dropWhile isspace_char s), s) \<in> measure length"
    using length_dropWhile_after [of isspace_char s "\<lambda>c. \<not> isspace_char c"]
      hd_dropWhile [of isspace_char s] by simp
qed simp

definition py_join :: "string \<Rightarrow> string list \<Rightarrow> string" where
  \<comment> \<open>\<open>sep.join(xs)\<close>\<close>
  "py_join sep xs = (case xs of [] \<Rightarrow> [] | x # rest \<Rightarrow> foldl (\<lambda>acc y. acc @ sep @ y) x rest)"

function re_split_digits :: "string \<Rightarrow> string list" where
  \<comment> \<open>\<open>re.split(r"(\d+)", s)\<close>: the text around each maximal digit run and, the group
      being a capturing one, the digit runs themselves; empty pieces are kept\<close>
  "re_split_digits s =
     (if dropWhile (\<lambda>c. \<not> re_digit_char c) s = [] then [takeWhile (\<lambda>c. \<not> re_digit_char c) s]
      else takeWhile (\<lambda>c. \<not> re_digit_char c) s
           # takeWhile re_digit_char (dropWhile (\<lambda>c. \<not> re_digit_char c) s)
           # re_split_digits (dropWhile re_digit_char (dropWhile (\<lambda>c. \<not> re_digit_char c) s)))"
  by pat_completeness auto
termination
proof (relation "measure length")
  fix s :: string
  assume "dropWhile (\<lambda>c. \<not> re_digit_char c) s \<noteq> []"
  then show "(dropWhile re_digit_char (dropWhile (\<lambda>c. \<not> re_digit_char c) s), s) \<in> measure length"
    using length_dropWhile_after [of "\<lambda>c. \<not> re_digit_char c" s re_digit_char]
      hd_dropWhile [of "\<lambda>c. \<not> re_digit_char c" s] by simp
qed simp

function re_split_runs :: "(char \<Rightarrow> bool) \<Rightarrow> (char \<Rightarrow> bool) \<Rightarrow> string \<Rightarrow> string list" where
  \<comment> \<open>\<open>re.split\<close> on a pattern \<open>[cls]+\<close> followed by \<open>(?:\s|$)*\<close> or by nothing: a match
      is a maximal run of class characters and then the run of \<open>trail\<close> characters after
      it (\<open>trail\<close> is the class \<open>\s\<close>, or empty); the pieces between matches are returned,
      the empty ones too\<close>
  "re_split_runs cls trail s =
     (if dropWhile (\<lambda>c. \<not> cls c) s = [] then [takeWhile (\<lambda>c. \<not> cls c) s]
      else takeWhile (\<lambda>c. \<not> cls c) s
           # re_split_runs cls trail
               (dropWhile trail (dropWhile cls (dropWhile (\<lambda>c. \<not> cls c) s))))"
  by pat_completeness auto
termination
proof (relation "measure (\<lambda>(cls, trail, s). length s)")
  fix cls trail :: "char \<Rightarrow> bool" and s :: string
  assume "dropWhile (\<lambda>c. \<not> cls c) s \<noteq> []"
  then have "length (dropWhile cls (dropWhile (\<lambda>c. \<not> cls c) s)) < length s"
    using length_dropWhile_after [of "\<lambda>c. \<not> cls c" s cls]
      hd_dropWhile [of "\<lambda>c. \<not> cls c" s] by simp
  moreover have "length (dropWhile trail (dropWhile cls (dropWhile (\<lambda>c. \<not> cls c) s)))
    \<le> length (dropWhile cls (dropWhile (\<lambda>c. \<not> cls c) s))"
    by (rule length_dropWhile_le)
  ultimately show "((cls, trail, dropWhile trail
      (dropWhile cls (dropWhile (\<lambda>c. \<not> cls c) s))), cls, trail, s)
    \<in> measure (\<lambda>(cls, trail, s). length s)"
    by simp
qed simp

section \<open>Errors\<close>

datatype error = KeyError | ValueError | IndexError | TypeError | RegexError

definition ebind :: "error + 'a \<Rightarrow> ('a \<Rightarrow> error + 'b) \<Rightarrow> error + 'b" where
  \<comment> \<open>sequencing: an exception raised by the first computation ends the whole\<close>
  "ebind m f = (case m of Inl e \<Rightarrow> Inl e | Inr x \<Rightarrow> f x)"

fun py_remove :: "'a \<Rightarrow> 'a list \<Rightarrow> error + 'a list" where
  \<comment> \<open>\<open>list.remove(x)\<close>: deletes the first item equal to \<open>x\<close>, ValueError when there is none\<close>
  "py_remove x [] = Inl ValueError"
| "py_remove x (y # ys) =
     (if y = x then Inr ys else ebind (py_remove x ys) (\<lambda>r. Inr (y # r)))"

definition first_item :: "('k \<times> 'v) list \<Rightarrow> error + ('k \<times> 'v)" where
  \<comment> \<open>\<open>list(d.items())[0]\<close> on a dict given by its items in order\<close>
  "first_item d = (case d of [] \<Rightarrow> Inl IndexError | kv # _ \<Rightarrow> Inr kv)"

definition getitem :: "('k \<rightharpoonup> 'v) \<Rightarrow> 'k \<Rightarrow> error + 'v" where
  \<comment> \<open>\<open>d[k]\<close>\<close>
  "getitem d k = (case d k of None \<Rightarrow> Inl KeyError | Some v \<Rightarrow> Inr v)"

fun getitems :: "'v option list \<Rightarrow> error + 'v list" where
  \<comment> \<open>a list display \<open>[d[k1], d[k2], ...]\<close>, evaluated left to right\<close>
  "getitems [] = Inr []"
| "getitems (None # rest) = Inl KeyError"
| "getitems (Some v # rest) = ebind (getitems rest) (\<lambda>vs. Inr (v # vs))"

function str_nat :: "nat \<Rightarrow> string" where
  "str_nat n =
     (if n < 10 then [''0123456789'' ! n] else str_nat (n div 10) @ [''0123456789'' ! (n mod 10)])"
  by pat_completeness auto
termination
  by (relation "measure id") auto

definition str_int :: "int \<Rightarrow> string" where
  \<comment> \<open>\<open>str(value)\<close> of an integer\<close>
  "str_int i = (if i < 0 then CHR ''-'' # str_nat (nat (- i)) else str_nat (nat i))"

section \<open>Configuration, settings and collaborators\<close>

text \<open>
  \<open>info\<close> is the language's configuration: every key may be absent (\<open>None\<close>). A
  simplification is a dict of one rule, given by its items; its replacement is a string or
  an integer.
\<close>

datatype replacement = IntValue int | StrValue string

record info =
  name :: "string option"
  skip :: "string list option"
  pertain :: "string list option"
  monday :: "string list option"
  tuesday :: "string list option"
  wednesday :: "string list option"
  thursday :: "string list option"
  friday :: "string list option"
  saturday :: "string list option"
  sunday :: "string list option"
  january :: "string list option"
  february :: "string list option"
  march :: "string list option"
  april :: "string list option"
  may :: "string list option"
  june :: "string list option"
  july :: "string list option"
  august :: "string list option"
  september :: "string list option"
  october :: "string list option"
  november :: "string list option"
  december :: "string list option"
  hour :: "string list option"
  minute :: "string list option"
  second :: "string list option"
  simplifications :: "(string \<times> replacement) list list option"
  sentence_splitter_group :: "int option"
  no_word_spacing :: "bool option"

record settings =
  NORMALIZE :: bool

text \<open>
  The dictionary class lives in \<open>dateparser/languages/dictionary.py\<close>, outside the file
  verified here. Of a dictionary object the code uses membership and lookup (a value may be
  \<open>None\<close>) and its \<open>split(string, keep_formatting)\<close>.
\<close>

record dictionary =
  dict_entries :: "string \<rightharpoonup> string option"
  dict_split :: "string \<Rightarrow> bool \<Rightarrow> string list"

text \<open>
  What the file imports: the two dictionary classes (as the object behaves under the
  settings it was last given), \<open>ALWAYS_KEEP_TOKENS\<close>, the helpers of
  \<open>dateparser.utils\<close>, the timezone stripper, and the regex engine. \<open>re_sub pattern repl s\<close>
  compiles \<open>pattern\<close> with \<open>IGNORECASE | UNICODE\<close> and substitutes; it raises on a
  pattern that does not compile. \<open>re_space\<close> is the engine's class \<open>\s\<close>: the \<open>regex\<close>
  package and Python's \<open>re\<close> agree on 0x09..0x0D, the space, 0x85 and 0xA0, and \<open>re\<close> adds
  0x1C..0x1F. The sentence pattern of group 2 matches the empty string, and where
  \<open>re.split\<close> splits on an empty match depends on the engine's version: that split is
  \<open>re_split_group2\<close>.
\<close>

record collaborators =
  Dictionary :: "info \<Rightarrow> settings \<Rightarrow> dictionary"
  NormalizedDictionary :: "info \<Rightarrow> settings \<Rightarrow> dictionary"
  ALWAYS_KEEP_TOKENS :: "string list"
  wrap_replacement_for_regex :: "string \<Rightarrow> string \<Rightarrow> string"
  normalize_unicode :: "string \<Rightarrow> string"
  pop_tz_offset_from_string :: "string \<Rightarrow> string \<times> string option"
  re_sub :: "string \<Rightarrow> string \<Rightarrow> string \<Rightarrow> error + string"
  re_space :: "char \<Rightarrow> bool"
  re_split_group2 :: "string \<Rightarrow> string list"

record language =
  shortname :: string
  info :: info

section \<open>The language class\<close>

text \<open>
  The caches of a language object (\<open>_dictionary\<close>, \<open>_simplifications\<close>,
  \<open>_simplification_patterns\<close>, \<open>_splitters\<close>, \<open>_wordchars\<close>) memoise values that depend
  on \<open>info\<close> and the normalisation mode only; the model computes the cached value where
  the source reads the cache. Every operation is given a settings object.
\<close>

definition get_dictionary :: "collaborators \<Rightarrow> language \<Rightarrow> settings \<Rightarrow> dictionary" where
  "get_dictionary E L st =
     (if \<not> NORMALIZE st then Dictionary E (info L) st else NormalizedDictionary E (info L) st)"

definition contains :: "dictionary \<Rightarrow> string \<Rightarrow> bool" where
  \<comment> \<open>\<open>word in dictionary\<close>\<close>
  "contains d w = (dict_entries d w \<noteq> None)"

definition capturing_splitters :: "collaborators \<Rightarrow> string set" where
  \<comment> \<open>\<open>self._get_splitters(settings)['capturing']\<close>; \<open>_set_splitters\<close> fills it with
      \<open>ALWAYS_KEEP_TOKENS\<close> and nothing else\<close>
  "capturing_splitters E = set (ALWAYS_KEEP_TOKENS E)"

subsection \<open>Simplifier\<close>

fun generate_simplifications_loop ::
  "collaborators \<Rightarrow> (string \<times> replacement) list list \<Rightarrow> bool \<Rightarrow> error + (string \<times> string) list list"
where
  "generate_simplifications_loop E [] normalized = Inr []"
| "generate_simplifications_loop E (simplification # rest) normalized =
     ebind (first_item simplification) (\<lambda>(key, value).
       ebind (generate_simplifications_loop E rest normalized) (\<lambda>r.
         Inr ([(if normalized then normalize_unicode E key else key,
                case value of
                  IntValue i \<Rightarrow> str_int i
                | StrValue v \<Rightarrow> if normalized then normalize_unicode E v else v)] # r)))"

definition generate_simplifications ::
  "collaborators \<Rightarrow> language \<Rightarrow> bool \<Rightarrow> error + (string \<times> string) list list"
where
  "generate_simplifications E L normalized =
     generate_simplifications_loop E
       (case simplifications (info L) of None \<Rightarrow> [] | Some rules \<Rightarrow> rules) normalized"

definition get_simplifications ::
  "collaborators \<Rightarrow> language \<Rightarrow> settings \<Rightarrow> error + (string \<times> string) list list"
where
  "get_simplifications E L st = generate_simplifications E L (NORMALIZE st)"

definition wrap_pattern :: "string \<Rightarrow> string" where
  \<comment> \<open>\<open>r'(\A|\d|_|\W)%s(\d|_|\W|\Z)' % pattern\<close>\<close>
  "wrap_pattern pattern =
     [CHR ''('', CHR 0x5C, CHR ''A'', CHR ''|'', CHR 0x5C, CHR ''d'', CHR ''|'', CHR ''_'',
      CHR ''|'', CHR 0x5C, CHR ''W'', CHR '')'']
     @ pattern
     @ [CHR ''('', CHR 0x5C, CHR ''d'', CHR ''|'', CHR ''_'', CHR ''|'', CHR 0x5C, CHR ''W'',
        CHR ''|'', CHR 0x5C, CHR ''Z'', CHR '')'']"

definition get_simplification_substitution ::
  "collaborators \<Rightarrow> language \<Rightarrow> (string \<times> string) list \<Rightarrow> error + (string \<times> string)"
where
  \<comment> \<open>the pattern (as text: it is compiled where it is applied) and the replacement\<close>
  "get_simplification_substitution E L simplification =
     ebind (first_item simplification) (\<lambda>(pattern, replacement).
       if no_word_spacing (info L) \<noteq> Some True
       then Inr (wrap_pattern pattern, wrap_replacement_for_regex E replacement pattern)
       else Inr (pattern, replacement))"

fun simplify_loop ::
  "collaborators \<Rightarrow> language \<Rightarrow> (string \<times> string) list list \<Rightarrow> string \<Rightarrow> error + string"
where
  "simplify_loop E L [] date_string = Inr date_string"
| "simplify_loop E L (simplification # rest) date_string =
     ebind (get_simplification_substitution E L simplification) (\<lambda>(pattern, replacement).
       ebind (re_sub E pattern replacement date_string) (\<lambda>substituted.
         simplify_loop E L rest (lower substituted)))"

definition simplify :: "collaborators \<Rightarrow> language \<Rightarrow> settings \<Rightarrow> string \<Rightarrow> error + string" where
  "simplify E L st date_string =
     ebind (get_simplifications E L st) (\<lambda>rules. simplify_loop E L rules (lower date_string))"

subsection \<open>Tokenizer\<close>

definition split_tokens_with_regex :: "string list \<Rightarrow> string list" where
  \<comment> \<open>called with the regex \<open>r"(\d+)"\<close> only\<close>
  "split_tokens_with_regex tokens = filter (\<lambda>t. t \<noteq> []) (concat (map re_split_digits tokens))"

definition split_tokens_by_known_words ::
  "collaborators \<Rightarrow> language \<Rightarrow> settings \<Rightarrow> string list \<Rightarrow> bool \<Rightarrow> string list"
where
  "split_tokens_by_known_words E L st tokens keep_formatting =
     concat (map (\<lambda>token. dict_split (get_dictionary E L st) token keep_formatting) tokens)"

definition split :: "collaborators \<Rightarrow> language \<Rightarrow> settings \<Rightarrow> string \<Rightarrow> bool \<Rightarrow> string list" where
  "split E L st date_string keep_formatting =
     split_tokens_by_known_words E L st (split_tokens_with_regex [date_string]) keep_formatting"

subsection \<open>Joiner\<close>

fun join_loop :: "string set \<Rightarrow> string \<Rightarrow> string \<Rightarrow> string \<Rightarrow> string list \<Rightarrow> string" where
  \<comment> \<open>the loop over \<open>range(1, len(tokens))\<close>: \<open>left\<close> is \<open>tokens[i - 1]\<close>\<close>
  "join_loop capturing separator joined left [] = joined"
| "join_loop capturing separator joined left (right # rest) =
     join_loop capturing separator
       ((if left \<notin> capturing \<and> right \<notin> capturing then joined @ separator else joined) @ right)
       right rest"

definition join :: "collaborators \<Rightarrow> string list \<Rightarrow> string \<Rightarrow> string" where
  "join E tokens separator =
     (case tokens of
        [] \<Rightarrow> []
      | first # rest \<Rightarrow> join_loop (capturing_splitters E) separator first first rest)"

subsection \<open>Translator\<close>

fun substitute :: "dictionary \<Rightarrow> string list \<Rightarrow> error + string list" where
  \<comment> \<open>the loop \<open>for i, word in enumerate(words)\<close> of \<open>translate\<close>; \<open>v or ''\<close> turns
      \<open>None\<close> into the empty string\<close>
  "substitute d [] = Inr []"
| "substitute d (word # rest) =
     (if contains d (lower word)
      then ebind (getitem (dict_entries d) (lower word)) (\<lambda>v.
             ebind (substitute d rest) (\<lambda>r. Inr ((case v of None \<Rightarrow> [] | Some t \<Rightarrow> t) # r)))
      else ebind (substitute d rest) (\<lambda>r. Inr (word # r)))"

definition freshness_words :: "string list" where
  "freshness_words = [''day'', ''week'', ''month'', ''year'', ''hour'', ''minute'', ''second'']"

definition clear_future_words :: "(string \<Rightarrow> 'a) \<Rightarrow> 'a list \<Rightarrow> error + 'a list" where
  \<comment> \<open>\<open>str\<close> embeds a string into the type of the list's items: \<open>translate\<close> passes a list of
      strings, \<open>translate_search\<close> a list whose items are strings or \<open>None\<close>\<close>
  "clear_future_words str words =
     (if set words \<inter> set (map str freshness_words) = {} then py_remove (str ''in'') words
      else Inr words)"

definition translate_words ::
  "collaborators \<Rightarrow> language \<Rightarrow> settings \<Rightarrow> string \<Rightarrow> bool \<Rightarrow> error + string list"
where
  \<comment> \<open>\<open>words\<close> when the substitution loop of \<open>translate\<close> has ended\<close>
  "translate_words E L st date_string keep_formatting =
     ebind (simplify E L st date_string) (\<lambda>simplified.
       substitute (get_dictionary E L st) (split E L st simplified keep_formatting))"

definition translate_kept ::
  "collaborators \<Rightarrow> language \<Rightarrow> settings \<Rightarrow> string \<Rightarrow> bool \<Rightarrow> error + string list"
where
  \<comment> \<open>\<open>list(filter(bool, words))\<close>, the tokens \<open>translate\<close> hands to \<open>_join\<close>\<close>
  "translate_kept E L st date_string keep_formatting =
     ebind (translate_words E L st date_string keep_formatting) (\<lambda>words.
       ebind (if ''in'' \<in> set words then clear_future_words (\<lambda>w. w) words else Inr words)
         (\<lambda>words. Inr (filter (\<lambda>w. w \<noteq> []) words)))"

definition translate ::
  "collaborators \<Rightarrow> language \<Rightarrow> settings \<Rightarrow> string \<Rightarrow> bool \<Rightarrow> error + string"
where
  "translate E L st date_string keep_formatting =
     ebind (translate_kept E L st date_string keep_formatting) (\<lambda>tokens.
       Inr (join E tokens (if keep_formatting then [] else '' '')))"

subsection \<open>Applicability check\<close>

fun is_date_consists_of_digits_only :: "string list \<Rightarrow> bool" where
  "is_date_consists_of_digits_only [] = True"
| "is_date_consists_of_digits_only (token # rest) =
     (if \<not> isdigit token then False else is_date_consists_of_digits_only rest)"

fun are_all_words_in_the_dictionary_loop :: "dictionary \<Rightarrow> string list \<Rightarrow> bool" where
  "are_all_words_in_the_dictionary_loop d [] = True"
| "are_all_words_in_the_dictionary_loop d (word # rest) =
     (if isdigit (lower word) \<or> contains d (lower word)
      then are_all_words_in_the_dictionary_loop d rest
      else False)"

definition are_all_words_in_the_dictionary ::
  "collaborators \<Rightarrow> language \<Rightarrow> string list \<Rightarrow> settings \<Rightarrow> bool"
where
  "are_all_words_in_the_dictionary E L words st =
     are_all_words_in_the_dictionary_loop (get_dictionary E L st) words"

definition is_applicable ::
  "collaborators \<Rightarrow> language \<Rightarrow> string \<Rightarrow> bool \<Rightarrow> settings \<Rightarrow> error + bool"
where
  "is_applicable E L date_string strip_timezone st =
     ebind (simplify E L st
              (if strip_timezone then fst (pop_tz_offset_from_string E date_string)
               else date_string))
       (\<lambda>simplified.
          if is_date_consists_of_digits_only (split E L st simplified False) then Inr True
          else Inr (are_all_words_in_the_dictionary E L (split E L st simplified False) st))"

subsection \<open>Search segmenter\<close>

text \<open>
  The sentence patterns, by group. A character outside the model's alphabet (the ellipsis,
  the ideographic full stop, the Arabic question mark, ...) occurs in no string of the
  model, so a class lists its other members. Groups 1, 3, 4 and 6 are a class run and the
  whitespace after it, group 5 is a run of line breaks.
\<close>

definition re_split_group :: "collaborators \<Rightarrow> int \<Rightarrow> string \<Rightarrow> string list" where
  \<comment> \<open>\<open>re.split(splitters_dict[g], string)\<close> for a key \<open>g\<close> of \<open>splitters_dict\<close>\<close>
  "re_split_group E g s =
     (if g = 1
      then re_split_runs
             (\<lambda>c. c \<in> set [CHR ''.'', CHR ''!'', CHR ''?'', CHR '';'', CHR 0x0D, CHR 0x0A])
             (re_space E) s
      else if g = 2 then re_split_group2 E s
      else if g = 3
      then re_split_runs
             (\<lambda>c. c \<in> set [CHR ''|'', CHR ''!'', CHR ''?'', CHR '';'', CHR 0x0D, CHR 0x0A])
             (re_space E) s
      else if g = 4
      then re_split_runs
             (\<lambda>c. c \<in> set [CHR ''.'', CHR ''!'', CHR ''?'', CHR '';'', CHR 0x0D, CHR 0x0A])
             (re_space E) s
      else if g = 5 then re_split_runs (\<lambda>c. c \<in> set [CHR 0x0D, CHR 0x0A]) (\<lambda>c. False) s
      else re_split_runs (\<lambda>c. c \<in> set [CHR 0x0D, CHR 0x0A, CHR ''!'', CHR ''.'']) (re_space E) s)"

lemma py_remove_length:
  "py_remove x xs = Inr r \<Longrightarrow> Suc (length r) = length xs"
proof (induction xs arbitrary: r)
  case Nil
  then show ?case by simp
next
  case (Cons y ys)
  then show ?case
    by (cases "py_remove x ys") (auto simp: ebind_def split: if_splits)
qed

function remove_empty_loop :: "nat \<Rightarrow> string list \<Rightarrow> error + string list" where
  \<comment> \<open>\<open>for i in sentences: if not i: sentences.remove(i)\<close>. The list iterator holds an
      index into the list that the body mutates: it yields \<open>sentences[k]\<close> while
      \<open>k < len(sentences)\<close>, whatever was removed meanwhile\<close>
  "remove_empty_loop k sentences =
     (if k < length sentences
      then (if sentences ! k = []
            then (case py_remove [] sentences of
                    Inl e \<Rightarrow> Inl e
                  | Inr removed \<Rightarrow> remove_empty_loop (k + 1) removed)
            else remove_empty_loop (k + 1) sentences)
      else Inr sentences)"
  by pat_completeness auto
termination
  by (relation "measure (\<lambda>(k, sentences). length sentences - k)")
    (auto dest: py_remove_length)

definition sentence_split :: "collaborators \<Rightarrow> language \<Rightarrow> string \<Rightarrow> error + string list" where
  "sentence_split E L s =
     ebind (case sentence_splitter_group (info L) of
              None \<Rightarrow> Inr (re_split_group E 1 s)
            | Some g \<Rightarrow> if 1 \<le> g \<and> g \<le> 6 then Inr (re_split_group E g s) else Inl KeyError)
       (remove_empty_loop 0)"

definition word_split :: "collaborators \<Rightarrow> language \<Rightarrow> string \<Rightarrow> settings \<Rightarrow> string list" where
  "word_split E L s st =
     (if no_word_spacing (info L) \<noteq> None then split E L st s True else py_split s)"

definition join_chunk :: "collaborators \<Rightarrow> language \<Rightarrow> string list \<Rightarrow> string" where
  "join_chunk E L chunk =
     (if no_word_spacing (info L) \<noteq> None then join E chunk [] else py_join '' '' chunk)"

definition token_with_digits_is_ok :: "language \<Rightarrow> string \<Rightarrow> bool" where
  \<comment> \<open>\<open>re.search\<close> finds a match of \<open>[\d\.:\-/]+\<close>, or of \<open>\d+\<close>, when one character of the
      token is in the class\<close>
  "token_with_digits_is_ok L token =
     (if no_word_spacing (info L) \<noteq> None
      then list_ex (\<lambda>c. re_digit_char c \<or> c \<in> set ''.:-/'') token
      else list_ex re_digit_char token)"

definition dashes :: "string list" where
  \<comment> \<open>the hyphen; the em dashes and the wave dash of the source's list are outside the
      alphabet\<close>
  "dashes = [''-'']"

definition strip_chars :: string where
  \<comment> \<open>the argument of \<open>word.strip\<close>: brackets, braces, parentheses, comma, full stop and
      the double quote\<close>
  "strip_chars = ''(){}[],.'' @ [CHR 0x22]"

record chunks =
  translated_chunk :: "string option list"
  original_chunk :: "string list"
  translated :: "string option list list"
  original :: "string list list"

definition is_dictionary_hit :: "dictionary \<Rightarrow> string \<Rightarrow> bool" where
  \<comment> \<open>the first test on a lowercased, simplified word\<close>
  "is_dictionary_hit d word = (contains d (strip strip_chars word) \<and> word \<notin> set dashes)"

definition close_chunk :: "chunks \<Rightarrow> chunks" where
  \<comment> \<open>the \<open>else\<close> branch: push the chunk in progress, if there is one, and reset it\<close>
  "close_chunk c =
     (if translated_chunk c \<noteq> []
      then c\<lparr>translated := translated c @ [translated_chunk c], translated_chunk := [],
             original := original c @ [original_chunk c], original_chunk := []\<rparr>
      else c)"

definition scan_word ::
  "collaborators \<Rightarrow> language \<Rightarrow> settings \<Rightarrow> string \<Rightarrow> chunks \<Rightarrow> error + chunks"
where
  \<comment> \<open>one turn of the loop over the words of a sentence; \<open>w\<close> is \<open>words[i]\<close>\<close>
  "scan_word E L st w c =
     ebind (simplify E L st (lower w)) (\<lambda>word.
       if is_dictionary_hit (get_dictionary E L st) word
       then ebind (getitem (dict_entries (get_dictionary E L st)) (strip strip_chars word)) (\<lambda>v.
              Inr (c\<lparr>translated_chunk := translated_chunk c @ [v],
                     original_chunk := original_chunk c @ [w]\<rparr>))
       else if token_with_digits_is_ok L word
       then Inr (c\<lparr>translated_chunk := translated_chunk c @ [Some word],
                   original_chunk := original_chunk c @ [w]\<rparr>)
       else Inr (close_chunk c))"

fun scan_words ::
  "collaborators \<Rightarrow> language \<Rightarrow> settings \<Rightarrow> string list \<Rightarrow> chunks \<Rightarrow> error + chunks"
where
  "scan_words E L st [] c = Inr c"
| "scan_words E L st (w # rest) c = ebind (scan_word E L st w c) (scan_words E L st rest)"

definition scan_sentence_words ::
  "collaborators \<Rightarrow> language \<Rightarrow> settings \<Rightarrow> string list
     \<Rightarrow> string option list list \<times> string list list
     \<Rightarrow> error + (string option list list \<times> string list list)"
where
  \<comment> \<open>the body of \<open>for sentence in sentences\<close> once the sentence is split into words: both
      chunks start empty, and a chunk still open at the end is pushed\<close>
  "scan_sentence_words E L st words acc =
     ebind (scan_words E L st words
              \<lparr>translated_chunk = [], original_chunk = [],
               translated = fst acc, original = snd acc\<rparr>)
       (\<lambda>c. if translated_chunk c \<noteq> []
             then Inr (translated c @ [translated_chunk c], original c @ [original_chunk c])
             else Inr (translated c, original c))"

fun scan_sentences ::
  "collaborators \<Rightarrow> language \<Rightarrow> settings \<Rightarrow> string list
     \<Rightarrow> string option list list \<times> string list list
     \<Rightarrow> error + (string option list list \<times> string list list)"
where
  "scan_sentences E L st [] acc = Inr acc"
| "scan_sentences E L st (sentence # rest) acc =
     ebind (scan_sentence_words E L st (word_split E L sentence st) acc)
       (scan_sentences E L st rest)"

fun truthy :: "string option list \<Rightarrow> string list" where
  \<comment> \<open>\<open>list(filter(bool, chunk))\<close>: neither \<open>None\<close> nor the empty string passes\<close>
  "truthy [] = []"
| "truthy (None # rest) = truthy rest"
| "truthy (Some s # rest) = (if s = [] then truthy rest else s # truthy rest)"

definition finish_chunk ::
  "collaborators \<Rightarrow> language \<Rightarrow> string option list \<Rightarrow> string list \<Rightarrow> error + (string \<times> string)"
where
  \<comment> \<open>one turn of the loop over \<open>range(len(translated))\<close>\<close>
  "finish_chunk E L t_chunk o_chunk =
     ebind (if Some ''in'' \<in> set t_chunk then clear_future_words Some t_chunk else Inr t_chunk)
       (\<lambda>cleared. Inr (join_chunk E L (truthy cleared),
                        join_chunk E L (filter (\<lambda>w. w \<noteq> []) o_chunk)))"

fun finish_chunks ::
  "collaborators \<Rightarrow> language \<Rightarrow> string option list list \<Rightarrow> string list list
     \<Rightarrow> error + (string list \<times> string list)"
where
  \<comment> \<open>\<open>original[i]\<close> is read for every index of \<open>translated\<close>; the two lists are pushed to
      together, so neither is the longer\<close>
  "finish_chunks E L [] os = Inr ([], [])"
| "finish_chunks E L (t_chunk # ts) [] = Inl IndexError"
| "finish_chunks E L (t_chunk # ts) (o_chunk # os) =
     ebind (finish_chunk E L t_chunk o_chunk) (\<lambda>(t, o').
       ebind (finish_chunks E L ts os) (\<lambda>(tr, orig). Inr (t # tr, o' # orig)))"

definition translate_search ::
  "collaborators \<Rightarrow> language \<Rightarrow> string \<Rightarrow> settings \<Rightarrow> error + (string list \<times> string list)"
where
  "translate_search E L search_string st =
     ebind (sentence_split E L search_string) (\<lambda>sentences.
       ebind (scan_sentences E L st sentences ([], [])) (\<lambda>(tr, orig).
         finish_chunks E L tr orig))"

subsection \<open>Grammar-engine bridge\<close>

text \<open>
  \<open>to_parserinfo\<close> ends in \<open>type(name, bases=[base_cls], dict=attributes)\<close>: the
  three-argument form of the builtin \<open>type\<close>, called with one positional and two keyword
  arguments and with a list for the bases. Python 3 rejects keyword arguments there
  (\<open>type() takes no keyword arguments\<close>); Python 2 takes them and requires a tuple of bases
  (\<open>type() argument 2 must be tuple, not list\<close>). Both require a tuple when the arguments
  are positional.
\<close>

datatype py_version = Python2 | Python3

datatype 'a bases = BasesList "'a list" | BasesTuple "'a list"

record parserinfo_attributes =
  JUMP :: "string list"
  PERTAIN :: "string list"
  WEEKDAYS :: "string list list"
  MONTHS :: "string list list"
  HMS :: "string list list"

record 'a parserinfo_class =
  class_name :: string
  class_bases :: "'a list"
  class_dict :: parserinfo_attributes

definition py_type ::
  "py_version \<Rightarrow> bool \<Rightarrow> string \<Rightarrow> 'a bases \<Rightarrow> parserinfo_attributes \<Rightarrow> error + 'a parserinfo_class"
where
  \<comment> \<open>\<open>type(name, bases, dict)\<close>; \<open>keywords\<close> says that bases and dict are passed by keyword\<close>
  "py_type version keywords nm bs attributes =
     (if version = Python3 \<and> keywords then Inl TypeError
      else case bs of
             BasesList _ \<Rightarrow> Inl TypeError
           | BasesTuple classes \<Rightarrow>
               Inr \<lparr>class_name = nm, class_bases = classes, class_dict = attributes\<rparr>)"

definition to_parserinfo ::
  "py_version \<Rightarrow> language \<Rightarrow> 'a \<Rightarrow> error + 'a parserinfo_class"
where
  "to_parserinfo version L base_cls =
     ebind (getitems [monday (info L), tuesday (info L), wednesday (info L), thursday (info L),
                      friday (info L), saturday (info L), sunday (info L)]) (\<lambda>weekdays.
     ebind (getitems [january (info L), february (info L), march (info L), april (info L),
                      may (info L), june (info L), july (info L), august (info L),
                      september (info L), october (info L), november (info L),
                      december (info L)]) (\<lambda>months.
     ebind (getitems [hour (info L), minute (info L), second (info L)]) (\<lambda>hms.
     ebind (case name (info L) of None \<Rightarrow> Inl KeyError | Some language \<Rightarrow> Inr language)
       (\<lambda>language.
       py_type version True (language @ ''ParserInfo'') (BasesList [base_cls])
         \<lparr>JUMP = (case skip (info L) of None \<Rightarrow> [] | Some ws \<Rightarrow> ws),
          PERTAIN = (case pertain (info L) of None \<Rightarrow> [] | Some ws \<Rightarrow> ws),
          WEEKDAYS = weekdays, MONTHS = months, HMS = hms\<rparr>))))"

section \<open>The specification's joiner\<close>

fun join_spec :: "string set \<Rightarrow> string \<Rightarrow> string list \<Rightarrow> string" where
  \<comment> \<open>the contract in the specification's words: tokens left to right, the separator
      between two consecutive tokens exactly when neither is a capturing token\<close>
  "join_spec capturing separator [] = []"
| "join_spec capturing separator [token] = token"
| "join_spec capturing separator (left # right # rest) =
     left @ (if left \<notin> capturing \<and> right \<notin> capturing then separator else [])
       @ join_spec capturing separator (right # rest)"

section \<open>The dictionary's split, from the specification\<close>

text \<open>
  Modelled from the spec: \<open>Dictionary.split(string, keep_formatting)\<close>, whose code
  (\<open>dateparser/languages/dictionary.py\<close>) is not among the sources. The specification says
  that it ``recognizes the longest known word/phrase starting at each position and, when
  \<open>keep_formatting\<close> is false, drops punctuation/whitespace-only tokens not explicitly marked
  as capturing; when true, such tokens are preserved verbatim''. Where no known word
  starts, the text up to the next change between word characters and other characters is
  one token: the specification leaves that open.
\<close>

definition isalnum_char :: "char \<Rightarrow> bool" where
  \<comment> \<open>a letter or a digit\<close>
  "isalnum_char c = (isdigit_char c \<or> lower_char c \<in> set lowercase)"

definition punctuation_only :: "string \<Rightarrow> bool" where
  \<comment> \<open>Modelled from the spec: a punctuation/whitespace-only token\<close>
  "punctuation_only token = list_all (\<lambda>c. \<not> isalnum_char c) token"

definition longest_known :: "string list \<Rightarrow> string \<Rightarrow> string" where
  \<comment> \<open>Modelled from the spec: the longest known word or phrase that starts the text, empty
      when there is none\<close>
  "longest_known known s =
     foldl (\<lambda>best w. if length best < length w \<and> take (length w) s = w then w else best) [] known"

function phrase_tokens :: "string list \<Rightarrow> string \<Rightarrow> string list" where
  \<comment> \<open>Modelled from the spec: the tokens of a text, left to right\<close>
  "phrase_tokens known s =
     (if s = [] then []
      else if longest_known known s \<noteq> []
      then longest_known known s # phrase_tokens known (drop (length (longest_known known s)) s)
      else takeWhile (\<lambda>c. isalnum_char c = isalnum_char (hd s)) s
           # phrase_tokens known (dropWhile (\<lambda>c. isalnum_char c = isalnum_char (hd s)) s))"
  by pat_completeness auto
termination
proof (relation "measure (\<lambda>(known, s). length s)")
  fix known :: "string list" and s :: string
  assume "s \<noteq> []"
  then show "((known, dropWhile (\<lambda>c. isalnum_char c = isalnum_char (hd s)) s), known, s)
      \<in> measure (\<lambda>(known, s). length s)"
    by (cases s) (simp_all add: less_Suc_eq_le length_dropWhile_le)
qed auto

definition spec_dictionary_split ::
  "string list \<Rightarrow> string list \<Rightarrow> string \<Rightarrow> bool \<Rightarrow> string list"
where
  \<comment> \<open>Modelled from the spec: \<open>Dictionary.split\<close>, for the known words and the capturing
      tokens given\<close>
  "spec_dictionary_split known capturing s keep_formatting =
     filter (\<lambda>token. keep_formatting \<or> token \<in> set capturing \<or> \<not> punctuation_only token)
       (phrase_tokens known s)"

section \<open>Well-formed configuration\<close>

text \<open>
  A configuration is well formed when every simplification of \<open>info\<close> has an entry and the
  regex engine accepts every pattern and replacement the simplifier builds from them.
\<close>

definition engine_accepts :: "collaborators \<Rightarrow> string \<Rightarrow> string \<Rightarrow> bool" where
  "engine_accepts E pattern replacement = (\<forall>s. \<exists>r. re_sub E pattern replacement s = Inr r)"

definition well_formed :: "collaborators \<Rightarrow> language \<Rightarrow> settings \<Rightarrow> bool" where
  "well_formed E L st =
     (list_all (\<lambda>rule. rule \<noteq> [])
        (case simplifications (info L) of None \<Rightarrow> [] | Some rules \<Rightarrow> rules) \<and>
      (\<forall>rules. get_simplifications E L st = Inr rules \<longrightarrow>
         list_all (\<lambda>rule. \<forall>p r. get_simplification_substitution E L rule = Inr (p, r)
                            \<longrightarrow> engine_accepts E p r) rules))"

section \<open>An example language\<close>

text \<open>
  A small French-like configuration on which the theorems below are instantiated. Its
  dictionary splits a fragment at whitespace unless the formatting is kept, and its regex
  engine accepts every pattern and finds no match.
\<close>

definition example_dictionary :: dictionary where
  "example_dictionary =
     \<lparr>dict_entries = map_of [(''lundi'', Some ''monday''), (''dans'', Some ''in''),
        (''jours'', Some ''day''), (''le'', None),
        ([CHR 0xE9, CHR ''t'', CHR 0xE9], Some ''summer'')],
      dict_split = (\<lambda>token keep_formatting. if keep_formatting then [token] else py_split token)\<rparr>"

definition example_collaborators :: collaborators where
  "example_collaborators =
     \<lparr>Dictionary = (\<lambda>i st. example_dictionary),
      NormalizedDictionary = (\<lambda>i st. example_dictionary),
      ALWAYS_KEEP_TOKENS = [''+'', '',''],
      wrap_replacement_for_regex = (\<lambda>replacement pattern. replacement),
      normalize_unicode = (\<lambda>s. s),
      pop_tz_offset_from_string = (\<lambda>s. (s, None)),
      re_sub = (\<lambda>pattern replacement s. Inr s),
      re_space = (\<lambda>c. c \<in> set [CHR 0x09, CHR 0x0A, CHR 0x0B, CHR 0x0C, CHR 0x0D, CHR '' '',
                                CHR 0x85, CHR 0xA0]),
      re_split_group2 = (\<lambda>s. [s])\<rparr>"

definition example_info :: info where
  "example_info =
     \<lparr>name = Some ''fr'', skip = Some [''le'', '',''], pertain = Some [''de''],
      monday = Some [''lundi''], tuesday = Some [''mardi''], wednesday = Some [''mercredi''],
      thursday = Some [''jeudi''], friday = Some [''vendredi''], saturday = Some [''samedi''],
      sunday = Some [''dimanche''],
      january = Some [''janvier''], february = Some [''fevrier''], march = Some [''mars''],
      april = Some [''avril''], may = Some [''mai''], june = Some [''juin''],
      july = Some [''juillet''], august = Some [''aout''], september = Some [''septembre''],
      october = Some [''octobre''], november = Some [''novembre''],
      december = Some [''decembre''],
      hour = Some [''heure''], minute = Some [''minute''], second = Some [''seconde''],
      simplifications = Some [[(''avant-hier'', StrValue ''2 jours''), (''x'', IntValue 1)],
                              [(''un'', IntValue 1)]],
      sentence_splitter_group = None, no_word_spacing = None\<rparr>"

definition example_language :: language where
  "example_language = \<lparr>shortname = ''fr'', info = example_info\<rparr>"

definition example_unspaced_language :: language where
  \<comment> \<open>the example with the key \<open>no_word_spacing\<close>\<close>
  "example_unspaced_language =
     example_language\<lparr>info := example_info\<lparr>no_word_spacing := Some True\<rparr>\<rparr>"

definition example_settings :: settings where
  "example_settings = \<lparr>NORMALIZE = False\<rparr>"

definition spec_example_collaborators :: collaborators where
  \<comment> \<open>the example, its dictionary splitting as the specification says\<close>
  "spec_example_collaborators =
     example_collaborators
       \<lparr>Dictionary := (\<lambda>i st. example_dictionary
           \<lparr>dict_split := spec_dictionary_split [''lundi'', ''dans'', ''jours'', ''le'']
              (ALWAYS_KEEP_TOKENS example_collaborators)\<rparr>)\<rparr>"

section \<open>Properties\<close>

declare py_split.simps [simp del] re_split_digits.simps [simp del]
  re_split_runs.simps [simp del] phrase_tokens.simps [simp del] str_nat.simps [simp del]
  remove_empty_loop.simps [simp del]

lemma ebind_Inl [simp]: "ebind (Inl e) f = Inl e"
  by (simp add: ebind_def)

lemma ebind_Inr [simp]: "ebind (Inr x) f = f x"
  by (simp add: ebind_def)

subsection \<open>Joiner\<close>

lemma join_loop_spec:
  "join_loop capturing separator (acc @ left) left rest
     = acc @ join_spec capturing separator (left # rest)"
proof (induction rest arbitrary: acc left)
  case Nil
  show ?case by simp
next
  case (Cons right rest)
  show ?case
    using Cons.IH [of "acc @ left @ separator" right] Cons.IH [of "acc @ left" right]
    by simp
qed

lemma join_eq_join_spec: "join E tokens separator = join_spec (capturing_splitters E) separator tokens"
proof (cases tokens)
  case Nil
  then show ?thesis by (simp add: join_def)
next
  case (Cons first rest)
  then show ?thesis
    using join_loop_spec [of "capturing_splitters E" separator "[]" first rest]
    by (simp add: join_def)
qed

text \<open>
  C4. \<open>join\<close> returns the empty string for an empty token list, and otherwise is the
  concatenation the specification describes: the tokens left to right, with the separator
  between two consecutive tokens exactly when neither the left nor the right one is a
  capturing splitter.
\<close>

theorem join_refines_spec:
  "join E [] separator = [] \<and>
   join E tokens separator = join_spec (capturing_splitters E) separator tokens"
  by (simp add: join_eq_join_spec)

theorem join_refines_spec_witness:
  "join example_collaborators [''a'', ''+'', ''b'', ''c''] ''_'' = ''a+b_c''"
proof -
  have "join_spec (capturing_splitters example_collaborators) ''_'' [''a'', ''+'', ''b'', ''c'']
      = ''a+b_c''"
    by (simp add: capturing_splitters_def example_collaborators_def)
  then show ?thesis
    using join_refines_spec [of example_collaborators "''_''" "[''a'', ''+'', ''b'', ''c'']"]
    by simp
qed

text \<open>
  C6. The specification's example says that joining \<open>hello\<close>, \<open>,\<close>, \<open>world\<close> with a
  space, the comma being a capturing splitter, gives \<open>hello, world\<close>. The joiner puts no
  separator on either side of a capturing token, so the result is \<open>hello,world\<close>.
\<close>

theorem join_hello_world_counterexample:
  "'','' \<in> capturing_splitters example_collaborators \<and>
   join example_collaborators [''hello'', '','', ''world''] '' '' \<noteq> ''hello, world''"
  by (simp add: join_def capturing_splitters_def example_collaborators_def)

text \<open>
  C6, amended. With the comma a capturing splitter, joining \<open>hello\<close>, \<open>,\<close>, \<open>world\<close> with a
  space gives \<open>hello,world\<close>: no separator before the comma and none after it.
\<close>

theorem join_hello_world:
  assumes "'','' \<in> capturing_splitters E"
  shows "join E [''hello'', '','', ''world''] '' '' = ''hello,world''"
  using assms by (simp add: join_def)

theorem join_hello_world_witness:
  "join example_collaborators [''hello'', '','', ''world''] '' '' = ''hello,world''"
proof -
  have "'','' \<in> capturing_splitters example_collaborators"
    by (simp add: capturing_splitters_def example_collaborators_def)
  then show ?thesis by (rule join_hello_world)
qed

subsection \<open>Translator and applicability check\<close>

lemma py_remove_first:
  "x \<notin> set pre \<Longrightarrow> py_remove x (pre @ x # post) = Inr (pre @ post)"
  by (induction pre) auto

lemma lower_char_digit [simp]: "isdigit_char (lower_char c) = isdigit_char c"
  by (simp add: isdigit_char_def lower_char_def uppercase_def lowercase_def)

lemma isdigit_lower [simp]: "isdigit (lower s) = isdigit s"
  by (simp add: isdigit_def lower_def list_all_iff)

lemma digits_only_iff: "is_date_consists_of_digits_only tokens = list_all isdigit tokens"
  by (induction tokens) auto

lemma all_words_iff:
  "are_all_words_in_the_dictionary_loop d words
     = list_all (\<lambda>w. isdigit w \<or> contains d (lower w)) words"
  by (induction words) auto

lemma substitute_total: "\<exists>r. substitute d words = Inr r"
proof (induction words)
  case Nil
  show ?case by simp
next
  case (Cons w ws)
  then obtain r where r: "substitute d ws = Inr r" by blast
  show ?case
  proof (cases "contains d (lower w)")
    case True
    then obtain v where "dict_entries d (lower w) = Some v"
      by (auto simp: contains_def)
    then show ?thesis using True r by (simp add: getitem_def)
  next
    case False
    then show ?thesis using r by simp
  qed
qed

lemma generate_simplifications_loop_total:
  assumes "list_all (\<lambda>rule. rule \<noteq> []) rules"
  shows "\<exists>r. generate_simplifications_loop E rules normalized = Inr r \<and> list_all (\<lambda>rule. rule \<noteq> []) r"
  using assms
proof (induction rules)
  case Nil
  show ?case by simp
next
  case (Cons rule rules)
  then obtain r where r: "generate_simplifications_loop E rules normalized = Inr r"
      "list_all (\<lambda>rule. rule \<noteq> []) r"
    by auto
  from Cons.prems obtain kv rest where "rule = kv # rest"
    by (cases rule) auto
  then show ?case using r
    by (cases kv) (simp add: first_item_def)
qed

lemma get_simplification_substitution_total:
  "rule \<noteq> [] \<Longrightarrow> \<exists>p r. get_simplification_substitution E L rule = Inr (p, r)"
  by (cases rule) (auto simp: get_simplification_substitution_def first_item_def split: prod.splits)

lemma simplify_loop_total:
  assumes "list_all (\<lambda>rule. rule \<noteq> []) rules"
    and "list_all (\<lambda>rule. \<forall>p r. get_simplification_substitution E L rule = Inr (p, r)
                            \<longrightarrow> engine_accepts E p r) rules"
  shows "\<exists>r. simplify_loop E L rules s = Inr r"
  using assms
proof (induction rules arbitrary: s)
  case Nil
  show ?case by simp
next
  case (Cons rule rules)
  from Cons.prems(1) obtain p r where pr: "get_simplification_substitution E L rule = Inr (p, r)"
    using get_simplification_substitution_total [of rule E L] by auto
  with Cons.prems(2) have "engine_accepts E p r" by simp
  then obtain s' where s': "re_sub E p r s = Inr s'"
    by (auto simp: engine_accepts_def)
  from Cons.IH [of "lower s'"] Cons.prems obtain out where
    "simplify_loop E L rules (lower s') = Inr out" by auto
  then show ?case using pr s' by simp
qed

lemma simplify_total:
  assumes "well_formed E L st"
  shows "\<exists>r. simplify E L st text = Inr r"
proof -
  from assms obtain rules where rules: "get_simplifications E L st = Inr rules"
      "list_all (\<lambda>rule. rule \<noteq> []) rules"
    using generate_simplifications_loop_total
    unfolding well_formed_def get_simplifications_def generate_simplifications_def by blast
  with assms have "list_all (\<lambda>rule. \<forall>p r. get_simplification_substitution E L rule = Inr (p, r)
                            \<longrightarrow> engine_accepts E p r) rules"
    by (simp add: well_formed_def)
  with rules obtain r where "simplify_loop E L rules (lower text) = Inr r"
    using simplify_loop_total by blast
  with rules show ?thesis by (simp add: simplify_def)
qed

lemma translate_kept_cases:
  assumes "translate_words E L st text keep = Inr words"
  shows "translate_kept E L st text keep =
     (if ''in'' \<in> set words \<and> set words \<inter> set freshness_words = {}
      then ebind (py_remove ''in'' words) (\<lambda>ws. Inr (filter (\<lambda>w. w \<noteq> []) ws))
      else Inr (filter (\<lambda>w. w \<noteq> []) words))"
  using assms by (simp add: translate_kept_def clear_future_words_def)

text \<open>
  C8. On a well-formed configuration, and with a settings object, \<open>simplify\<close> and
  \<open>translate\<close> return a value for every input text: the IndexError of an empty
  simplification, the error of the regex engine, the KeyError of the dictionary lookup and
  the ValueError of \<open>list.remove\<close> are not reached. \<open>split\<close> has no error value at all.
\<close>

theorem translate_never_raises:
  assumes "well_formed E L st"
  shows "(\<exists>r. simplify E L st text = Inr r) \<and> (\<exists>r. translate E L st text keep = Inr r)"
proof -
  obtain s where s: "simplify E L st text = Inr s"
    using simplify_total [OF assms] by blast
  obtain words where "substitute (get_dictionary E L st) (split E L st s keep) = Inr words"
    using substitute_total by blast
  with s have words: "translate_words E L st text keep = Inr words"
    by (simp add: translate_words_def)
  have "\<exists>kept. translate_kept E L st text keep = Inr kept"
  proof (cases "''in'' \<in> set words \<and> set words \<inter> set freshness_words = {}")
    case True
    then obtain pre post where "words = pre @ ''in'' # post" "''in'' \<notin> set pre"
      by (meson split_list_first)
    then have "py_remove ''in'' words = Inr (pre @ post)"
      by (simp add: py_remove_first)
    then show ?thesis using True translate_kept_cases [OF words] by simp
  next
    case False
    then show ?thesis using translate_kept_cases [OF words] by auto
  qed
  then show ?thesis using s by (auto simp: translate_def)
qed

lemma example_well_formed: "well_formed example_collaborators example_language example_settings"
  by (simp add: well_formed_def engine_accepts_def example_collaborators_def
      example_language_def example_info_def list_all_iff)

theorem translate_never_raises_witness:
  "(\<exists>r. simplify example_collaborators example_language example_settings ''Avant-hier'' = Inr r) \<and>
   (\<exists>r. translate example_collaborators example_language example_settings ''Avant-hier'' False = Inr r)"
  using translate_never_raises [OF example_well_formed] by blast

text \<open>
  C1 as stated fails. The words after substitution are \<open>in\<close>, \<open>3\<close>, \<open>in\<close>: the token
  \<open>in\<close> is there and no time-unit word is, yet \<open>in\<close> is among the tokens that are joined
  and in the output.
\<close>

theorem translate_in_removed_counterexample:
  "translate_words example_collaborators example_language example_settings ''dans 3 dans'' False
     = Inr [''in'', ''3'', ''in''] \<and>
   ''in'' \<in> set [''in'', ''3'', ''in''] \<and>
   set [''in'', ''3'', ''in''] \<inter> set freshness_words = {} \<and>
   translate_kept example_collaborators example_language example_settings ''dans 3 dans'' False
     = Inr [''3'', ''in''] \<and>
   ''in'' \<in> set [''3'', ''in''] \<and>
   translate example_collaborators example_language example_settings ''dans 3 dans'' False
     = Inr ''3 in''"
  by code_simp

text \<open>
  C1, amended. Let \<open>words\<close> be the tokens after substitution. If no token is \<open>in\<close>, or some
  token is a time-unit word, every token is kept (so every \<open>in\<close> is retained). If \<open>in\<close> is
  there and no time-unit word is, the leftmost \<open>in\<close> is removed and nothing else. The
  output is the join of the non-empty tokens that are left.
\<close>

theorem translate_in_disambiguation:
  assumes "translate_words E L st text keep = Inr words"
  shows "(''in'' \<notin> set words \<or> set words \<inter> set freshness_words \<noteq> {} \<longrightarrow>
            translate_kept E L st text keep = Inr (filter (\<lambda>w. w \<noteq> []) words)) \<and>
         (''in'' \<in> set words \<and> set words \<inter> set freshness_words = {} \<longrightarrow>
            (\<exists>pre post. words = pre @ ''in'' # post \<and> ''in'' \<notin> set pre \<and>
               translate_kept E L st text keep = Inr (filter (\<lambda>w. w \<noteq> []) (pre @ post)))) \<and>
         translate E L st text keep =
           ebind (translate_kept E L st text keep)
             (\<lambda>tokens. Inr (join E tokens (if keep then [] else '' '')))"
proof (intro conjI impI)
  assume "''in'' \<notin> set words \<or> set words \<inter> set freshness_words \<noteq> {}"
  then show "translate_kept E L st text keep = Inr (filter (\<lambda>w. w \<noteq> []) words)"
    using translate_kept_cases [OF assms] by auto
next
  assume a: "''in'' \<in> set words \<and> set words \<inter> set freshness_words = {}"
  then obtain pre post where split: "words = pre @ ''in'' # post" "''in'' \<notin> set pre"
    by (meson split_list_first)
  then have "py_remove ''in'' words = Inr (pre @ post)"
    by (simp add: py_remove_first)
  then have "translate_kept E L st text keep = Inr (filter (\<lambda>w. w \<noteq> []) (pre @ post))"
    using a translate_kept_cases [OF assms] by simp
  with split show "\<exists>pre post. words = pre @ ''in'' # post \<and> ''in'' \<notin> set pre \<and>
      translate_kept E L st text keep = Inr (filter (\<lambda>w. w \<noteq> []) (pre @ post))"
    by blast
next
  show "translate E L st text keep =
      ebind (translate_kept E L st text keep)
        (\<lambda>tokens. Inr (join E tokens (if keep then [] else '' '')))"
    by (simp add: translate_def)
qed

theorem translate_in_disambiguation_witness:
  "translate_kept example_collaborators example_language example_settings ''dans 3 jours'' False
     = Inr [''in'', ''3'', ''day''] \<and>
   (\<exists>pre post. [''in'', ''12''] = pre @ ''in'' # post \<and> ''in'' \<notin> set pre \<and>
      translate_kept example_collaborators example_language example_settings ''dans 12'' False
        = Inr (filter (\<lambda>w. w \<noteq> []) (pre @ post)))"
proof -
  have w1: "translate_words example_collaborators example_language example_settings
      ''dans 3 jours'' False = Inr [''in'', ''3'', ''day'']"
    by code_simp
  have w2: "translate_words example_collaborators example_language example_settings
      ''dans 12'' False = Inr [''in'', ''12'']"
    by code_simp
  have f1: "set [''in'', ''3'', ''day''] \<inter> set freshness_words \<noteq> {}"
    by (simp add: freshness_words_def)
  have f2: "''in'' \<in> set [''in'', ''12''] \<and> set [''in'', ''12''] \<inter> set freshness_words = {}"
    by (simp add: freshness_words_def)
  have "translate_kept example_collaborators example_language example_settings
      ''dans 3 jours'' False = Inr (filter (\<lambda>w. w \<noteq> []) [''in'', ''3'', ''day''])"
    using translate_in_disambiguation [OF w1] f1 by blast
  moreover have "\<exists>pre post. [''in'', ''12''] = pre @ ''in'' # post \<and> ''in'' \<notin> set pre \<and>
      translate_kept example_collaborators example_language example_settings ''dans 12'' False
        = Inr (filter (\<lambda>w. w \<noteq> []) (pre @ post))"
    using translate_in_disambiguation [OF w2] f2 by blast
  ultimately show ?thesis by simp
qed

text \<open>
  C10. When the tokens after substitution hold \<open>in\<close> more than once and no time-unit word,
  only the leftmost \<open>in\<close> is removed: the output is the join of the non-empty tokens
  before it and after it, and those still hold every later \<open>in\<close>.
\<close>

theorem translate_removes_leftmost_in_only:
  assumes "translate_words E L st text keep = Inr words"
    and "1 < count_list words ''in''"
    and "set words \<inter> set freshness_words = {}"
  shows "\<exists>pre post. words = pre @ ''in'' # post \<and> ''in'' \<notin> set pre \<and> ''in'' \<in> set post \<and>
           count_list (filter (\<lambda>w. w \<noteq> []) (pre @ post)) ''in'' + 1 = count_list words ''in'' \<and>
           translate E L st text keep =
             Inr (join E (filter (\<lambda>w. w \<noteq> []) (pre @ post)) (if keep then [] else '' ''))"
proof -
  have mem: "''in'' \<in> set words"
    using assms(2) by (metis count_list_0_iff not_less_zero)
  then obtain pre post where split: "words = pre @ ''in'' # post" "''in'' \<notin> set pre"
    by (meson split_list_first)
  then have removed: "py_remove ''in'' words = Inr (pre @ post)"
    by (simp add: py_remove_first)
  have pre0: "count_list pre ''in'' = 0"
    using split(2) by (simp add: count_list_0_iff)
  have count: "count_list words ''in'' = count_list post ''in'' + 1"
    using split(1) pre0 by simp
  with assms(2) have post: "''in'' \<in> set post"
    by (metis add_cancel_left_left count_list_0_iff less_numeral_extra(4))
  have nonempty: "count_list (filter (\<lambda>w. w \<noteq> []) xs) ''in'' = count_list xs ''in''" for xs :: "string list"
    by (induction xs) auto
  have kept: "translate_kept E L st text keep = Inr (filter (\<lambda>w. w \<noteq> []) (pre @ post))"
    using translate_kept_cases [OF assms(1)] mem assms(3) removed by simp
  have "count_list (filter (\<lambda>w. w \<noteq> []) (pre @ post)) ''in'' + 1 = count_list words ''in''"
    using nonempty [of "pre @ post"] count pre0 by simp
  moreover have "translate E L st text keep =
      Inr (join E (filter (\<lambda>w. w \<noteq> []) (pre @ post)) (if keep then [] else '' ''))"
    using kept by (simp add: translate_def)
  ultimately show ?thesis
    using split post by blast
qed

theorem translate_removes_leftmost_in_only_witness:
  "\<exists>pre post. [''in'', ''3'', ''in''] = pre @ ''in'' # post \<and> ''in'' \<notin> set pre \<and> ''in'' \<in> set post \<and>
     count_list (filter (\<lambda>w. w \<noteq> []) (pre @ post)) ''in'' + 1 = count_list [''in'', ''3'', ''in''] ''in'' \<and>
     translate example_collaborators example_language example_settings ''dans 3 dans'' False
       = Inr (join example_collaborators (filter (\<lambda>w. w \<noteq> []) (pre @ post)) '' '')"
proof -
  have w: "translate_words example_collaborators example_language example_settings
      ''dans 3 dans'' False = Inr [''in'', ''3'', ''in'']"
    by code_simp
  have c: "1 < count_list [''in'', ''3'', ''in''] ''in''"
    by simp
  have f: "set [''in'', ''3'', ''in''] \<inter> set freshness_words = {}"
    by (simp add: freshness_words_def)
  show ?thesis
    using translate_removes_leftmost_in_only [OF w c f] by simp
qed

text \<open>
  C2. With \<open>strip_timezone\<close> false, \<open>is_applicable\<close> is true when every token of the
  simplified string is purely digits (\<open>str.isdigit\<close>); otherwise it is true exactly when
  every token is purely digits or, lowercased, a dictionary entry; a token that is neither
  makes it false.
\<close>

theorem is_applicable_digits_or_dictionary:
  assumes "simplify E L st text = Inr simplified"
  shows "(list_all isdigit (split E L st simplified False) \<longrightarrow>
            is_applicable E L text False st = Inr True) \<and>
         (\<not> list_all isdigit (split E L st simplified False) \<longrightarrow>
            is_applicable E L text False st =
              Inr (list_all (\<lambda>t. isdigit t \<or> contains (get_dictionary E L st) (lower t))
                     (split E L st simplified False))) \<and>
         (list_ex (\<lambda>t. \<not> isdigit t \<and> \<not> contains (get_dictionary E L st) (lower t))
            (split E L st simplified False) \<longrightarrow>
            is_applicable E L text False st = Inr False)"
  using assms
  by (auto simp: is_applicable_def digits_only_iff all_words_iff
      are_all_words_in_the_dictionary_def list_all_iff list_ex_iff)

theorem is_applicable_digits_or_dictionary_witness:
  "is_applicable example_collaborators example_language ''12 2020'' False example_settings = Inr True \<and>
   is_applicable example_collaborators example_language [CHR 0xB2] False example_settings = Inr True \<and>
   is_applicable example_collaborators example_language ''Lundi 12'' False example_settings = Inr True \<and>
   is_applicable example_collaborators example_language [CHR 0xC9, CHR ''T'', CHR 0xC9] False
     example_settings = Inr True \<and>
   is_applicable example_collaborators example_language ''monday 12'' False example_settings = Inr False"
proof -
  have s1: "simplify example_collaborators example_language example_settings ''12 2020'' = Inr ''12 2020''"
    by code_simp
  have s2: "simplify example_collaborators example_language example_settings ''Lundi 12'' = Inr ''lundi 12''"
    by code_simp
  have s3: "simplify example_collaborators example_language example_settings ''monday 12'' = Inr ''monday 12''"
    by code_simp
  have s4: "simplify example_collaborators example_language example_settings [CHR 0xB2] = Inr [CHR 0xB2]"
    by code_simp
  have s5: "simplify example_collaborators example_language example_settings
      [CHR 0xC9, CHR ''T'', CHR 0xC9] = Inr [CHR 0xE9, CHR ''t'', CHR 0xE9]"
    by code_simp
  have t1: "list_all isdigit (split example_collaborators example_language example_settings ''12 2020'' False)"
    by code_simp
  have t2: "\<not> list_all isdigit (split example_collaborators example_language example_settings ''lundi 12'' False)"
    by code_simp
  have t2': "list_all (\<lambda>t. isdigit t \<or> contains (get_dictionary example_collaborators example_language example_settings) (lower t))
                     (split example_collaborators example_language example_settings ''lundi 12'' False)"
    by code_simp
  have t3: "list_ex (\<lambda>t. \<not> isdigit t \<and> \<not> contains (get_dictionary example_collaborators example_language example_settings) (lower t))
            (split example_collaborators example_language example_settings ''monday 12'' False)"
    by code_simp
  have t4: "list_all isdigit (split example_collaborators example_language example_settings [CHR 0xB2] False)"
    by code_simp
  have t5: "\<not> list_all isdigit (split example_collaborators example_language example_settings
      [CHR 0xE9, CHR ''t'', CHR 0xE9] False)"
    by code_simp
  have t5': "list_all (\<lambda>t. isdigit t \<or> contains (get_dictionary example_collaborators example_language example_settings) (lower t))
      (split example_collaborators example_language example_settings [CHR 0xE9, CHR ''t'', CHR 0xE9] False)"
    by code_simp
  show ?thesis
    using is_applicable_digits_or_dictionary [OF s1] is_applicable_digits_or_dictionary [OF s2]
      is_applicable_digits_or_dictionary [OF s3] is_applicable_digits_or_dictionary [OF s4]
      is_applicable_digits_or_dictionary [OF s5] t1 t2 t2' t3 t4 t5 t5'
    by simp
qed

subsection \<open>Search segmenter\<close>

lemma scan_words_append:
  "scan_words E L st (xs @ ys) c = ebind (scan_words E L st xs c) (scan_words E L st ys)"
proof (induction xs arbitrary: c)
  case Nil
  show ?case by simp
next
  case (Cons w xs)
  show ?case
    by (cases "scan_word E L st w c") (simp_all add: Cons.IH)
qed

lemma scan_word_unrecognized:
  assumes "simplify E L st (lower u) = Inr word"
    and "\<not> is_dictionary_hit (get_dictionary E L st) word"
    and "\<not> token_with_digits_is_ok L word"
  shows "scan_word E L st u c = Inr (close_chunk c)"
  using assms by (simp add: scan_word_def)

lemma scan_word_recognized:
  assumes "simplify E L st (lower w) = Inr word"
    and "is_dictionary_hit (get_dictionary E L st) word \<or> token_with_digits_is_ok L word"
  shows "\<exists>t. scan_word E L st w c =
           Inr (c\<lparr>translated_chunk := translated_chunk c @ [t],
                  original_chunk := original_chunk c @ [w]\<rparr>)"
proof (cases "is_dictionary_hit (get_dictionary E L st) word")
  case True
  then obtain v where "dict_entries (get_dictionary E L st) (strip strip_chars word) = Some v"
    by (auto simp: is_dictionary_hit_def contains_def)
  then have "scan_word E L st w c =
      Inr (c\<lparr>translated_chunk := translated_chunk c @ [v],
             original_chunk := original_chunk c @ [w]\<rparr>)"
    using True assms(1) by (simp add: scan_word_def getitem_def)
  then show ?thesis by blast
next
  case False
  then have "scan_word E L st w c =
      Inr (c\<lparr>translated_chunk := translated_chunk c @ [Some word],
             original_chunk := original_chunk c @ [w]\<rparr>)"
    using assms by (simp add: scan_word_def)
  then show ?thesis by blast
qed

lemma scan_word_cases:
  assumes "scan_word E L st w c = Inr c'"
  obtains (closed) word where "simplify E L st (lower w) = Inr word"
      "\<not> is_dictionary_hit (get_dictionary E L st) word" "\<not> token_with_digits_is_ok L word"
      "c' = close_chunk c"
  | (appended) word t where "simplify E L st (lower w) = Inr word"
      "is_dictionary_hit (get_dictionary E L st) word \<or> token_with_digits_is_ok L word"
      "c' = c\<lparr>translated_chunk := translated_chunk c @ [t],
              original_chunk := original_chunk c @ [w]\<rparr>"
proof -
  from assms obtain word where word: "simplify E L st (lower w) = Inr word"
    by (cases "simplify E L st (lower w)") (simp_all add: scan_word_def)
  show ?thesis
  proof (cases "is_dictionary_hit (get_dictionary E L st) word \<or> token_with_digits_is_ok L word")
    case True
    then obtain t where "scan_word E L st w c =
        Inr (c\<lparr>translated_chunk := translated_chunk c @ [t],
               original_chunk := original_chunk c @ [w]\<rparr>)"
      using scan_word_recognized [OF word] by blast
    with assms True word show ?thesis by (auto intro: appended)
  next
    case False
    then have "scan_word E L st w c = Inr (close_chunk c)"
      using scan_word_unrecognized [OF word] by blast
    with assms False word show ?thesis by (auto intro: closed)
  qed
qed

lemma scan_word_balanced:
  assumes "scan_word E L st w c = Inr c'"
    and "length (translated_chunk c) = length (original_chunk c)"
  shows "length (translated_chunk c') = length (original_chunk c')"
  using assms by (cases rule: scan_word_cases) (auto simp: close_chunk_def)

lemma scan_words_balanced:
  assumes "scan_words E L st ws c = Inr c'"
    and "length (translated_chunk c) = length (original_chunk c)"
  shows "length (translated_chunk c') = length (original_chunk c')"
  using assms
proof (induction ws arbitrary: c)
  case Nil
  then show ?case by simp
next
  case (Cons w ws)
  then obtain c1 where c1: "scan_word E L st w c = Inr c1"
    by (cases "scan_word E L st w c") simp_all
  with Cons.prems have "scan_words E L st ws c1 = Inr c'" by simp
  moreover have "length (translated_chunk c1) = length (original_chunk c1)"
    using scan_word_balanced [OF c1] Cons.prems(2) by simp
  ultimately show ?case by (rule Cons.IH)
qed

lemma close_chunk_fresh:
  assumes "length (translated_chunk c) = length (original_chunk c)"
  shows "close_chunk c =
    (if translated_chunk c \<noteq> []
     then \<lparr>translated_chunk = [], original_chunk = [],
           translated = translated c @ [translated_chunk c],
           original = original c @ [original_chunk c]\<rparr>
     else \<lparr>translated_chunk = [], original_chunk = [],
           translated = translated c, original = original c\<rparr>)"
  using assms by (cases c) (auto simp: close_chunk_def)

lemma scan_sentence_words_boundary:
  assumes "simplify E L st (lower u) = Inr word"
    and "\<not> is_dictionary_hit (get_dictionary E L st) word"
    and "\<not> token_with_digits_is_ok L word"
  shows "scan_sentence_words E L st (xs @ u # ys) acc
    = ebind (scan_sentence_words E L st xs acc) (scan_sentence_words E L st ys)"
proof (cases "scan_words E L st xs
    \<lparr>translated_chunk = [], original_chunk = [], translated = fst acc, original = snd acc\<rparr>")
  case (Inl e)
  then show ?thesis by (simp add: scan_sentence_words_def scan_words_append)
next
  case (Inr c)
  then have "length (translated_chunk c) = length (original_chunk c)"
    using scan_words_balanced by fastforce
  then have fresh: "close_chunk c =
    (if translated_chunk c \<noteq> []
     then \<lparr>translated_chunk = [], original_chunk = [],
           translated = translated c @ [translated_chunk c],
           original = original c @ [original_chunk c]\<rparr>
     else \<lparr>translated_chunk = [], original_chunk = [],
           translated = translated c, original = original c\<rparr>)"
    by (rule close_chunk_fresh)
  show ?thesis
    using Inr scan_word_unrecognized [OF assms, of c] fresh
    by (simp add: scan_sentence_words_def scan_words_append)
qed


lemma scan_sentence_words_single:
  assumes "simplify E L st (lower w) = Inr word"
    and "is_dictionary_hit (get_dictionary E L st) word \<or> token_with_digits_is_ok L word"
  shows "\<exists>t. scan_sentence_words E L st [w] acc = Inr (fst acc @ [[t]], snd acc @ [[w]])"
proof -
  obtain t where "scan_word E L st w
      \<lparr>translated_chunk = [], original_chunk = [], translated = fst acc, original = snd acc\<rparr>
    = Inr \<lparr>translated_chunk = [t], original_chunk = [w], translated = fst acc, original = snd acc\<rparr>"
    using scan_word_recognized [OF assms, of "\<lparr>translated_chunk = [], original_chunk = [],
      translated = fst acc, original = snd acc\<rparr>"] by auto
  then have "scan_sentence_words E L st [w] acc = Inr (fst acc @ [[t]], snd acc @ [[w]])"
    by (simp add: scan_sentence_words_def)
  then show ?thesis by blast
qed

lemma scan_word_excludes:
  assumes u: "simplify E L st (lower u) = Inr word"
      "\<not> is_dictionary_hit (get_dictionary E L st) word" "\<not> token_with_digits_is_ok L word"
    and step: "scan_word E L st w c = Inr c'"
    and inv: "u \<notin> set (original_chunk c)" "\<forall>chunk \<in> set (original c). u \<notin> set chunk"
  shows "u \<notin> set (original_chunk c') \<and> (\<forall>chunk \<in> set (original c'). u \<notin> set chunk)"
  using step
proof (cases rule: scan_word_cases)
  case (closed word')
  then show ?thesis using inv by (auto simp: close_chunk_def)
next
  case (appended word' t)
  then have "w \<noteq> u" using u by auto
  then show ?thesis using appended inv by auto
qed

lemma scan_words_excludes:
  assumes u: "simplify E L st (lower u) = Inr word"
      "\<not> is_dictionary_hit (get_dictionary E L st) word" "\<not> token_with_digits_is_ok L word"
    and run: "scan_words E L st ws c = Inr c'"
    and inv: "u \<notin> set (original_chunk c)" "\<forall>chunk \<in> set (original c). u \<notin> set chunk"
  shows "u \<notin> set (original_chunk c') \<and> (\<forall>chunk \<in> set (original c'). u \<notin> set chunk)"
  using run inv
proof (induction ws arbitrary: c)
  case Nil
  then show ?case by simp
next
  case (Cons w ws)
  then obtain c1 where c1: "scan_word E L st w c = Inr c1"
    by (cases "scan_word E L st w c") simp_all
  with Cons.prems have rest: "scan_words E L st ws c1 = Inr c'" by simp
  have "u \<notin> set (original_chunk c1) \<and> (\<forall>chunk \<in> set (original c1). u \<notin> set chunk)"
    using scan_word_excludes [OF u c1] Cons.prems by blast
  then show ?case using Cons.IH [OF rest] by blast
qed

lemma scan_sentence_words_excludes:
  assumes u: "simplify E L st (lower u) = Inr word"
      "\<not> is_dictionary_hit (get_dictionary E L st) word" "\<not> token_with_digits_is_ok L word"
    and run: "scan_sentence_words E L st ws acc = Inr acc'"
    and inv: "\<forall>chunk \<in> set (snd acc). u \<notin> set chunk"
  shows "\<forall>chunk \<in> set (snd acc'). u \<notin> set chunk"
proof -
  from run obtain c where c: "scan_words E L st ws
      \<lparr>translated_chunk = [], original_chunk = [], translated = fst acc, original = snd acc\<rparr>
      = Inr c"
    by (cases "scan_words E L st ws \<lparr>translated_chunk = [], original_chunk = [],
      translated = fst acc, original = snd acc\<rparr>") (simp_all add: scan_sentence_words_def)
  have "u \<notin> set (original_chunk c) \<and> (\<forall>chunk \<in> set (original c). u \<notin> set chunk)"
    using scan_words_excludes [OF u c] inv by simp
  then show ?thesis
    using run c by (auto simp: scan_sentence_words_def split: if_splits)
qed

lemma scan_sentences_excludes:
  assumes u: "simplify E L st (lower u) = Inr word"
      "\<not> is_dictionary_hit (get_dictionary E L st) word" "\<not> token_with_digits_is_ok L word"
    and run: "scan_sentences E L st sentences acc = Inr acc'"
    and inv: "\<forall>chunk \<in> set (snd acc). u \<notin> set chunk"
  shows "\<forall>chunk \<in> set (snd acc'). u \<notin> set chunk"
  using run inv
proof (induction sentences arbitrary: acc)
  case Nil
  then show ?case by simp
next
  case (Cons sentence rest)
  then obtain acc1 where acc1:
      "scan_sentence_words E L st (word_split E L sentence st) acc = Inr acc1"
    by (cases "scan_sentence_words E L st (word_split E L sentence st) acc") simp_all
  with Cons.prems have rest: "scan_sentences E L st rest acc1 = Inr acc'" by simp
  have "\<forall>chunk \<in> set (snd acc1). u \<notin> set chunk"
    using scan_sentence_words_excludes [OF u acc1] Cons.prems(2) by blast
  then show ?case using Cons.IH [OF rest] by blast
qed

text \<open>
  C3 as stated fails for a language with the key \<open>no_word_spacing\<close>. The word \<open>-\<close> is no
  dictionary hit and bears no digit, so it is unrecognized in the claim's sense; yet the
  numeric test of such a language accepts it, and in \<open>12-13\<close> it is added to the chunk
  between \<open>12\<close> and \<open>13\<close>, which stay in one chunk.
\<close>

theorem dash_in_chunk_counterexample:
  "simplify example_collaborators example_unspaced_language example_settings (lower ''-'') = Inr ''-'' \<and>
   \<not> is_dictionary_hit
       (get_dictionary example_collaborators example_unspaced_language example_settings) ''-'' \<and>
   \<not> list_ex re_digit_char ''-'' \<and>
   word_split example_collaborators example_unspaced_language ''12-13'' example_settings
     = [''12'', ''-'', ''13''] \<and>
   scan_sentence_words example_collaborators example_unspaced_language example_settings
       [''12'', ''-'', ''13''] ([], [])
     = Inr ([[Some ''12'', Some ''-'', Some ''13'']], [[''12'', ''-'', ''13'']]) \<and>
   translate_search example_collaborators example_unspaced_language ''12-13'' example_settings
     = Inr ([''12-13''], [''12-13''])"
  by code_simp

text \<open>
  C3, amended. Let \<open>u\<close> be a word that, lowercased and simplified, is neither a
  dictionary hit (after stripping the bracket, quote and punctuation characters) nor
  accepted by the numeric test \<open>_token_with_digits_is_ok\<close> (a digit in the word; under
  \<open>no_word_spacing\<close> a digit or one of \<open>. : - /\<close>). Scanning the words \<open>xs\<close>, \<open>u\<close>, \<open>ys\<close> of
  a sentence gives what scanning \<open>xs\<close> and then \<open>ys\<close> as two sentences gives: \<open>u\<close> closes
  the chunk in progress and adds nothing to any chunk, translated or original. So two
  words \<open>a\<close> and \<open>b\<close> that are hits or pass the numeric test, with \<open>u\<close> between them, end
  up in two chunks, and no original chunk of a search holds \<open>u\<close>.
\<close>

theorem unrecognized_word_ends_chunk:
  assumes "simplify E L st (lower u) = Inr word"
    and "\<not> is_dictionary_hit (get_dictionary E L st) word"
    and "\<not> token_with_digits_is_ok L word"
  shows "scan_sentence_words E L st (xs @ u # ys) acc
           = ebind (scan_sentence_words E L st xs acc) (scan_sentence_words E L st ys) \<and>
         (\<forall>a b wa wb.
            simplify E L st (lower a) = Inr wa \<and>
            (is_dictionary_hit (get_dictionary E L st) wa \<or> token_with_digits_is_ok L wa) \<and>
            simplify E L st (lower b) = Inr wb \<and>
            (is_dictionary_hit (get_dictionary E L st) wb \<or> token_with_digits_is_ok L wb) \<longrightarrow>
            (\<exists>ta tb. scan_sentence_words E L st [a, u, b] acc
                       = Inr (fst acc @ [[ta], [tb]], snd acc @ [[a], [b]]))) \<and>
         (\<forall>sentences tr orig.
            scan_sentences E L st sentences ([], []) = Inr (tr, orig) \<longrightarrow>
            (\<forall>chunk \<in> set orig. u \<notin> set chunk))"
proof (intro conjI allI impI)
  show "scan_sentence_words E L st (xs @ u # ys) acc
      = ebind (scan_sentence_words E L st xs acc) (scan_sentence_words E L st ys)"
    using assms by (rule scan_sentence_words_boundary)
next
  fix a b wa wb
  assume ab: "simplify E L st (lower a) = Inr wa \<and>
      (is_dictionary_hit (get_dictionary E L st) wa \<or> token_with_digits_is_ok L wa) \<and>
      simplify E L st (lower b) = Inr wb \<and>
      (is_dictionary_hit (get_dictionary E L st) wb \<or> token_with_digits_is_ok L wb)"
  obtain ta where ta: "scan_sentence_words E L st [a] acc = Inr (fst acc @ [[ta]], snd acc @ [[a]])"
    using scan_sentence_words_single [of E L st a wa acc] ab by blast
  obtain tb where tb: "scan_sentence_words E L st [b] (fst acc @ [[ta]], snd acc @ [[a]])
      = Inr ((fst acc @ [[ta]]) @ [[tb]], (snd acc @ [[a]]) @ [[b]])"
    using scan_sentence_words_single [of E L st b wb "(fst acc @ [[ta]], snd acc @ [[a]])"] ab
    by auto
  have "scan_sentence_words E L st ([a] @ u # [b]) acc
      = ebind (scan_sentence_words E L st [a] acc) (scan_sentence_words E L st [b])"
    using assms by (rule scan_sentence_words_boundary)
  then have "scan_sentence_words E L st [a, u, b] acc
      = Inr (fst acc @ [[ta], [tb]], snd acc @ [[a], [b]])"
    using ta tb by simp
  then show "\<exists>ta tb. scan_sentence_words E L st [a, u, b] acc
      = Inr (fst acc @ [[ta], [tb]], snd acc @ [[a], [b]])"
    by blast
next
  fix sentences tr orig
  assume "scan_sentences E L st sentences ([], []) = Inr (tr, orig)"
  then show "\<forall>chunk \<in> set orig. u \<notin> set chunk"
    using scan_sentences_excludes [OF assms, of sentences "([], [])" "(tr, orig)"] by simp
qed

theorem unrecognized_word_ends_chunk_witness:
  "scan_sentence_words example_collaborators example_language example_settings
      [''lundi'', ''puis'', ''12''] ([], [])
     = Inr ([[Some ''monday''], [Some ''12'']], [[''lundi''], [''12'']]) \<and>
   translate_search example_collaborators example_language ''lundi puis 12'' example_settings
     = Inr ([''monday'', ''12''], [''lundi'', ''12''])"
proof -
  have u: "simplify example_collaborators example_language example_settings (lower ''puis'')
      = Inr ''puis''"
    by code_simp
  have nohit: "\<not> is_dictionary_hit
      (get_dictionary example_collaborators example_language example_settings) ''puis''"
    by code_simp
  have nodigit: "\<not> token_with_digits_is_ok example_language ''puis''"
    by code_simp
  have left: "scan_sentence_words example_collaborators example_language example_settings
      [''lundi''] ([], []) = Inr ([[Some ''monday'']], [[''lundi'']])"
    by code_simp
  have right: "scan_sentence_words example_collaborators example_language example_settings
      [''12''] ([[Some ''monday'']], [[''lundi'']])
      = Inr ([[Some ''monday''], [Some ''12'']], [[''lundi''], [''12'']])"
    by code_simp
  have search: "translate_search example_collaborators example_language ''lundi puis 12''
      example_settings = Inr ([''monday'', ''12''], [''lundi'', ''12''])"
    by code_simp
  have "scan_sentence_words example_collaborators example_language example_settings
      ([''lundi''] @ ''puis'' # [''12'']) ([], [])
    = ebind (scan_sentence_words example_collaborators example_language example_settings
        [''lundi''] ([], []))
      (scan_sentence_words example_collaborators example_language example_settings [''12''])"
    using unrecognized_word_ends_chunk [OF u nohit nodigit] by blast
  then show ?thesis using left right search by simp
qed

text \<open>
  C7. The claim is that sentence splitting drops every empty sentence. The text
  \<open>. . a\<close> splits into two empty fragments and \<open>a\<close>; the loop removes the first empty
  fragment, its iterator then stands past the second one, and the second one stays.
\<close>

theorem sentence_split_keeps_empty_sentence:
  "re_split_group example_collaborators 1 ''. . a'' = ['''', '''', ''a''] \<and>
   sentence_split example_collaborators example_language ''. . a'' = Inr ['''', ''a'']"
  by code_simp

subsection \<open>Grammar-engine bridge\<close>

lemma py_type_keyword_list [simp]:
  "py_type version True nm (BasesList bs) attributes = Inl TypeError"
  by (cases version) (simp_all add: py_type_def)

lemma ebind_never_returns:
  "(\<And>x. f x \<noteq> Inr y) \<Longrightarrow> ebind m f \<noteq> Inr y"
  by (cases m) simp_all

text \<open>
  C9. The claim is that \<open>to_parserinfo\<close> returns a descriptor. It returns none, whatever
  \<open>info\<close> holds: a missing name is a KeyError, and with every name there the call of
  \<open>type\<close> raises TypeError.
\<close>

theorem to_parserinfo_never_returns:
  "to_parserinfo version L base_cls \<noteq> Inr descriptor"
  unfolding to_parserinfo_def
  by (intro ebind_never_returns) simp

lemma to_parserinfo_raises_on_example:
  "to_parserinfo Python2 example_language ''parserinfo'' = Inl TypeError \<and>
   to_parserinfo Python3 example_language ''parserinfo'' = Inl TypeError"
  by code_simp

subsection \<open>Round trip\<close>

lemma join_spec_content:
  assumes "list_all isspace_char separator"
  shows "filter (\<lambda>c. \<not> isspace_char c) (join_spec capturing separator tokens)
    = filter (\<lambda>c. \<not> isspace_char c) (concat tokens)"
  using assms
  by (induction capturing separator tokens rule: join_spec.induct)
    (auto simp: list_all_iff filter_empty_conv)

lemma concat_re_split_digits: "concat (re_split_digits s) = s"
proof (induction s rule: re_split_digits.induct)
  case (1 s)
  show ?case
  proof (cases "dropWhile (\<lambda>c. \<not> re_digit_char c) s = []")
    case True
    then have "takeWhile (\<lambda>c. \<not> re_digit_char c) s = s"
      using takeWhile_dropWhile_id [of "\<lambda>c. \<not> re_digit_char c" s] by simp
    moreover have "re_split_digits s = [takeWhile (\<lambda>c. \<not> re_digit_char c) s]"
      using True by (simp add: re_split_digits.simps [of s])
    ultimately show ?thesis by simp
  next
    case False
    then have "re_split_digits s
        = takeWhile (\<lambda>c. \<not> re_digit_char c) s
          # takeWhile re_digit_char (dropWhile (\<lambda>c. \<not> re_digit_char c) s)
          # re_split_digits (dropWhile re_digit_char (dropWhile (\<lambda>c. \<not> re_digit_char c) s))"
      by (simp add: re_split_digits.simps [of s])
    then show ?thesis using 1 [OF False] by simp
  qed
qed

lemma concat_nonempty: "concat (filter (\<lambda>t. t \<noteq> []) xs) = concat xs"
  by (induction xs) auto

lemma concat_split_tokens_with_regex: "concat (split_tokens_with_regex [s]) = s"
  by (simp add: split_tokens_with_regex_def concat_nonempty concat_re_split_digits)

lemma filter_takeWhile_same: "filter P (takeWhile P xs) = takeWhile P xs"
  by (induction xs) auto

lemma filter_takeWhile_not: "filter (\<lambda>x. \<not> P x) (takeWhile P xs) = []"
  by (induction xs) auto

lemma filter_drop_leading: "filter (\<lambda>x. \<not> P x) (dropWhile P xs) = filter (\<lambda>x. \<not> P x) xs"
  by (induction xs) auto

lemma py_split_content:
  "filter (\<lambda>c. \<not> isspace_char c) (concat (py_split s)) = filter (\<lambda>c. \<not> isspace_char c) s"
proof (induction s rule: py_split.induct)
  case (1 s)
  show ?case
  proof (cases "dropWhile isspace_char s = []")
    case True
    then have "filter (\<lambda>c. \<not> isspace_char c) s = []"
      by (simp add: dropWhile_eq_Nil_conv filter_empty_conv)
    moreover have "py_split s = []"
      using True by (simp add: py_split.simps [of s])
    ultimately show ?thesis by simp
  next
    case False
    define r where "r = dropWhile isspace_char s"
    have unfold: "py_split s = takeWhile (\<lambda>c. \<not> isspace_char c) r
        # py_split (dropWhile (\<lambda>c. \<not> isspace_char c) r)"
      using False by (simp add: py_split.simps [of s] r_def)
    have ih: "filter (\<lambda>c. \<not> isspace_char c) (concat (py_split (dropWhile (\<lambda>c. \<not> isspace_char c) r)))
        = filter (\<lambda>c. \<not> isspace_char c) (dropWhile (\<lambda>c. \<not> isspace_char c) r)"
      using 1 [OF False] by (simp add: r_def)
    have "filter (\<lambda>c. \<not> isspace_char c) s = filter (\<lambda>c. \<not> isspace_char c) r"
      by (simp add: r_def filter_drop_leading)
    also have "\<dots> = filter (\<lambda>c. \<not> isspace_char c)
        (takeWhile (\<lambda>c. \<not> isspace_char c) r @ dropWhile (\<lambda>c. \<not> isspace_char c) r)"
      by simp
    also have "\<dots> = takeWhile (\<lambda>c. \<not> isspace_char c) r
        @ filter (\<lambda>c. \<not> isspace_char c) (dropWhile (\<lambda>c. \<not> isspace_char c) r)"
      by (simp only: filter_append filter_takeWhile_same)
    finally show ?thesis using unfold ih by (simp add: filter_takeWhile_same)
  qed
qed

lemma fragments_content:
  assumes "\<And>fragment. fragment \<in> set fragments \<Longrightarrow> filter P (concat (f fragment)) = filter P fragment"
  shows "filter P (concat (concat (map f fragments))) = filter P (concat fragments)"
  using assms by (induction fragments) auto

text \<open>
  C5 as stated fails on the dictionary split the specification describes: with the
  formatting not kept, the semicolon of \<open>lundi; 12\<close> is a punctuation-only token and is
  dropped, and the joined tokens \<open>lundi 12\<close> differ from the input in more than whitespace.
\<close>

theorem join_split_roundtrip_counterexample:
  "split spec_example_collaborators example_language example_settings ''lundi; 12'' False
     = [''lundi'', ''12''] \<and>
   join spec_example_collaborators [''lundi'', ''12''] '' '' = ''lundi 12'' \<and>
   filter (\<lambda>c. \<not> isspace_char c) ''lundi 12'' \<noteq> filter (\<lambda>c. \<not> isspace_char c) ''lundi; 12''"
  by code_simp

text \<open>
  C5, amended. Joining keeps the content and the order of the tokens and adds separators
  only: with a whitespace separator, the joined string and the concatenation of the tokens
  differ in whitespace only. And when the dictionary's split loses nothing but whitespace
  from the fragments of \<open>s\<close> (the digit runs of \<open>s\<close> and the text between them),
  \<open>join(split(s))\<close> and \<open>s\<close> differ in whitespace only.
\<close>

theorem join_split_roundtrip:
  assumes "list_all isspace_char separator"
  shows "filter (\<lambda>c. \<not> isspace_char c) (join E tokens separator)
           = filter (\<lambda>c. \<not> isspace_char c) (concat tokens) \<and>
         ((\<forall>fragment \<in> set (split_tokens_with_regex [s]).
             filter (\<lambda>c. \<not> isspace_char c)
               (concat (dict_split (get_dictionary E L st) fragment keep_formatting))
             = filter (\<lambda>c. \<not> isspace_char c) fragment) \<longrightarrow>
          filter (\<lambda>c. \<not> isspace_char c) (join E (split E L st s keep_formatting) separator)
            = filter (\<lambda>c. \<not> isspace_char c) s)"
proof (intro conjI impI)
  show content: "filter (\<lambda>c. \<not> isspace_char c) (join E tokens separator)
      = filter (\<lambda>c. \<not> isspace_char c) (concat tokens)" for tokens
    using assms by (simp add: join_eq_join_spec join_spec_content)
  assume keeps: "\<forall>fragment \<in> set (split_tokens_with_regex [s]).
      filter (\<lambda>c. \<not> isspace_char c)
        (concat (dict_split (get_dictionary E L st) fragment keep_formatting))
      = filter (\<lambda>c. \<not> isspace_char c) fragment"
  have "filter (\<lambda>c. \<not> isspace_char c) (concat (split E L st s keep_formatting))
      = filter (\<lambda>c. \<not> isspace_char c) (concat (split_tokens_with_regex [s]))"
    unfolding split_def split_tokens_by_known_words_def
    using keeps by (intro fragments_content) simp
  then show "filter (\<lambda>c. \<not> isspace_char c) (join E (split E L st s keep_formatting) separator)
      = filter (\<lambda>c. \<not> isspace_char c) s"
    using content [of "split E L st s keep_formatting"]
    by (simp add: concat_split_tokens_with_regex)
qed

theorem join_split_roundtrip_witness:
  "split spec_example_collaborators example_language example_settings ''lundi 12+3'' False
     = [''lundi'', ''12'', ''+'', ''3''] \<and>
   filter (\<lambda>c. \<not> isspace_char c)
     (join spec_example_collaborators
        (split spec_example_collaborators example_language example_settings ''lundi 12+3'' False) '' '')
   = ''lundi12+3''"
proof -
  have sep: "list_all isspace_char '' ''"
    by code_simp
  have keeps: "\<forall>fragment \<in> set (split_tokens_with_regex [''lundi 12+3'']).
      filter (\<lambda>c. \<not> isspace_char c)
        (concat (dict_split
           (get_dictionary spec_example_collaborators example_language example_settings)
           fragment False))
      = filter (\<lambda>c. \<not> isspace_char c) fragment"
    by code_simp
  have tokens: "split spec_example_collaborators example_language example_settings
      ''lundi 12+3'' False = [''lundi'', ''12'', ''+'', ''3'']"
    by code_simp
  have "filter (\<lambda>c. \<not> isspace_char c) ''lundi 12+3'' = ''lundi12+3''"
    by code_simp
  then show ?thesis
    using join_split_roundtrip [OF sep, of spec_example_collaborators "[]" "''lundi 12+3''"
        example_language example_settings False] keeps tokens
    by simp
qed

end
